theory Spec2Isabelle
  imports Main "HOL-Library.Word"
begin

section \<open>The LED sequencer module led.c\<close>

text \<open>
  The module keeps its whole state in file-level variables: the selected \<open>mode\<close>, the
  \<open>blinkPeriod\<close> in milliseconds, and the step counter \<open>state\<close> that is a static local
  of the thread function \<open>flash\<close>. Four GPIO lines are driven through
  \<open>gpio_set_value\<close>. The embedding passes one record holding these variables, the level
  of every GPIO line, and the trace of the externally visible calls made so far
  (\<open>printk\<close>, \<open>gpio_set_value\<close>, \<open>msleep\<close>), in program order.
\<close>

subsection \<open>Data\<close>

type_synonym unsigned_int = "32 word"
type_synonym unsigned_char = "8 word"
type_synonym size_t = "32 word"  \<comment> \<open>the 32-bit Raspberry Pi kernel the module is written for\<close>

definition LED1 :: nat where "LED1 = 5"
definition LED2 :: nat where "LED2 = 6"
definition LED3 :: nat where "LED3 = 13"
definition LED4 :: nat where "LED4 = 19"

datatype modes = CORRE | IZQ | DER

datatype event = Printk string | Gpio_set nat bool | Msleep unsigned_int

record lkm =
  mode :: modes
  blinkPeriod :: unsigned_int
  state :: unsigned_char
  gpio :: "nat \<Rightarrow> bool"
  trace :: "event list"

text \<open>
  The initialisers of the source: \<open>mode = DER\<close>, \<open>blinkPeriod = 1000\<close>, \<open>state = 0\<close>.
  The levels of the lines before the module drives them are a parameter.
\<close>

definition lkm_init :: "(nat \<Rightarrow> bool) \<Rightarrow> lkm" where
  "lkm_init g = \<lparr>mode = DER, blinkPeriod = 1000, state = 0, gpio = g, trace = []\<rparr>"

subsection \<open>Library routines the callbacks use\<close>

text \<open>
  A C string is the list of its characters before the terminating NUL; reading at the end
  of the list reads that NUL. \<open>strncmp\<close> follows the kernel's loop: compare at most
  \<open>count\<close> characters, stop at the first difference or at a NUL.
\<close>

definition NUL :: char where "NUL = CHR 0x00"

fun strncmp :: "string \<Rightarrow> string \<Rightarrow> nat \<Rightarrow> int" where
  "strncmp cs ct 0 = 0"
| "strncmp [] [] (Suc n) = 0"
| "strncmp [] (c2 # ct) (Suc n) = (if c2 = NUL then 0 else -1)"
| "strncmp (c1 # cs) [] (Suc n) = (if c1 = NUL then 0 else 1)"
| "strncmp (c1 # cs) (c2 # ct) (Suc n) =
     (if c1 \<noteq> c2 then (if (of_char c1 :: nat) < of_char c2 then -1 else 1)
      else if c1 = NUL then 0
      else strncmp cs ct n)"

subsection \<open>The sysfs callbacks\<close>

text \<open>
  \<open>mode_store\<close>: three comparisons in the order of the source, each over \<open>count - 1\<close>
  characters (\<open>count\<close> is a \<open>size_t\<close>, so \<open>count - 1\<close> wraps at \<open>count = 0\<close>), and
  \<open>return count\<close> on every path. The result is the new state and the returned value.
\<close>

definition mode_store :: "string \<Rightarrow> size_t \<Rightarrow> lkm \<Rightarrow> lkm \<times> size_t" where
  "mode_store buf count s =
     (if strncmp buf ''izq'' (unat (count - 1)) = 0 then (s\<lparr>mode := IZQ\<rparr>, count)
      else if strncmp buf ''corre'' (unat (count - 1)) = 0 then (s\<lparr>mode := CORRE\<rparr>, count)
      else if strncmp buf ''der'' (unat (count - 1)) = 0 then (s\<lparr>mode := DER\<rparr>, count)
      else (s, count))"

text \<open>
  \<open>sscanf(buf, "%du", &period)\<close>: the conversion \<open>%d\<close> of the kernel's \<open>vsscanf\<close> skips
  white space (the six ASCII characters and the no-break space 0xA0 of the kernel's
  character table), takes an optional minus sign and then decimal digits, accumulates them in
  an \<open>unsigned long long\<close> and stores the low 32 bits. With no digit there, nothing is
  stored (\<open>None\<close>). The literal \<open>u\<close> that follows in the format stores nothing.
\<close>

definition isspace :: "char \<Rightarrow> bool" where
  "isspace c = (c \<in> {CHR '' '', CHR 0x09, CHR 0x0A, CHR 0x0B, CHR 0x0C, CHR 0x0D,
                   CHR 0xA0})"

definition isdigit :: "char \<Rightarrow> bool" where
  "isdigit c = (48 \<le> (of_char c :: nat) \<and> (of_char c :: nat) \<le> 57)"

fun skip_spaces :: "string \<Rightarrow> string" where
  "skip_spaces [] = []"
| "skip_spaces (c # cs) = (if isspace c then skip_spaces cs else c # cs)"

fun simple_strtoull :: "64 word \<Rightarrow> string \<Rightarrow> 64 word" where
  "simple_strtoull result [] = result"
| "simple_strtoull result (c # cs) =
     (if isdigit c then simple_strtoull (result * 10 + of_nat (of_char c - 48)) cs
      else result)"

definition sscanf_d :: "string \<Rightarrow> unsigned_int option" where
  "sscanf_d buf =
     (let str = skip_spaces buf;
          neg = (str \<noteq> [] \<and> hd str = CHR ''-'');
          digits = (if neg then tl str else str)
      in if digits = [] \<or> \<not> isdigit (hd digits) then None
         else Some (ucast (if neg then - simple_strtoull 0 digits
                           else simple_strtoull 0 digits)))"

text \<open>
  \<open>period_store\<close>: the local \<open>period\<close> has no initialiser, so when \<open>sscanf\<close> stores
  nothing it keeps an indeterminate value, the first parameter here. The period is
  assigned inside the range check only; the function returns \<open>period\<close>.
\<close>

definition period_store :: "unsigned_int \<Rightarrow> string \<Rightarrow> size_t \<Rightarrow> lkm \<Rightarrow> lkm \<times> unsigned_int" where
  "period_store indeterminate buf count s =
     (let period = (case sscanf_d buf of Some v \<Rightarrow> v | None \<Rightarrow> indeterminate)
      in (if period > 1 \<and> period \<le> 10000 then s\<lparr>blinkPeriod := period\<rparr> else s, period))"

subsection \<open>The thread function\<close>

definition printk :: "string \<Rightarrow> lkm \<Rightarrow> lkm" where
  "printk msg s = s\<lparr>trace := trace s @ [Printk msg]\<rparr>"

definition gpio_set_value :: "nat \<Rightarrow> bool \<Rightarrow> lkm \<Rightarrow> lkm" where
  "gpio_set_value pin v s = s\<lparr>gpio := (gpio s)(pin := v), trace := trace s @ [Gpio_set pin v]\<rparr>"

definition msleep :: "unsigned_int \<Rightarrow> lkm \<Rightarrow> lkm" where
  "msleep ms s = s\<lparr>trace := trace s @ [Msleep ms]\<rparr>"

text \<open>
  Every case of the three switches is the same line of four calls, for \<open>LED1\<close> to
  \<open>LED4\<close> in this order, followed by the assignment of the next \<open>state\<close>.
\<close>

definition set_leds :: "bool \<Rightarrow> bool \<Rightarrow> bool \<Rightarrow> bool \<Rightarrow> lkm \<Rightarrow> lkm" where
  "set_leds v1 v2 v3 v4 s =
     gpio_set_value LED4 v4 (gpio_set_value LED3 v3 (gpio_set_value LED2 v2
       (gpio_set_value LED1 v1 s)))"

text \<open>
  The body of the loop up to the sleep: the \<open>if\<close> chain on \<open>mode\<close> with one switch on
  \<open>state\<close> in each branch; the \<open>default\<close> label of each switch only assigns
  \<open>state = 0\<close>.
\<close>

definition flash_switch :: "lkm \<Rightarrow> lkm" where
  "flash_switch s =
     (if mode s = DER then
        (if state s = 0 then (set_leds True False False False s)\<lparr>state := 1\<rparr>
         else if state s = 1 then (set_leds False True False False s)\<lparr>state := 2\<rparr>
         else if state s = 2 then (set_leds False False True False s)\<lparr>state := 3\<rparr>
         else if state s = 3 then (set_leds False False False True s)\<lparr>state := 0\<rparr>
         else s\<lparr>state := 0\<rparr>)
      else if mode s = IZQ then
        (if state s = 0 then (set_leds False False False True s)\<lparr>state := 1\<rparr>
         else if state s = 1 then (set_leds False False True False s)\<lparr>state := 2\<rparr>
         else if state s = 2 then (set_leds False True False False s)\<lparr>state := 3\<rparr>
         else if state s = 3 then (set_leds True False False False s)\<lparr>state := 0\<rparr>
         else s\<lparr>state := 0\<rparr>)
      else
        (if state s = 0 then (set_leds False False False True s)\<lparr>state := 1\<rparr>
         else if state s = 1 then (set_leds False False True False s)\<lparr>state := 2\<rparr>
         else if state s = 2 then (set_leds False True False False s)\<lparr>state := 3\<rparr>
         else if state s = 3 then (set_leds True False False False s)\<lparr>state := 4\<rparr>
         else if state s = 4 then (set_leds False True False False s)\<lparr>state := 5\<rparr>
         else if state s = 5 then (set_leds False False True False s)\<lparr>state := 0\<rparr>
         else s\<lparr>state := 0\<rparr>))"

text \<open>
  One pass of the loop body: the switch, then \<open>msleep(blinkPeriod/2)\<close> with the period
  read at that point (unsigned division). \<open>set_current_state\<close> is a scheduler hint with
  no effect on the variables or the lines.
\<close>

definition flash_tick :: "lkm \<Rightarrow> lkm" where
  "flash_tick s = (let s' = flash_switch s in msleep (blinkPeriod s' div 2) s')"

text \<open>
  The loop \<open>while(!kthread_should_stop())\<close> runs until the kernel asks the thread to
  stop, so it need not end. Its environment is given as a list with one entry for each
  evaluation of the loop condition: the answer of \<open>kthread_should_stop\<close>, and the sysfs
  writes that were served since the previous evaluation (they are taken to land between
  two passes of the body). When the list is used up before a stop was answered, the
  thread has not returned: \<open>None\<close>.
\<close>

datatype sysfs_write = Mode_write string size_t | Period_write unsigned_int string size_t

fun sysfs_store :: "sysfs_write \<Rightarrow> lkm \<Rightarrow> lkm" where
  "sysfs_store (Mode_write buf count) s = fst (mode_store buf count s)"
| "sysfs_store (Period_write indeterminate buf count) s =
     fst (period_store indeterminate buf count s)"

record tick_in =
  writes :: "sysfs_write list"
  kthread_should_stop :: bool

fun flash_loop :: "tick_in list \<Rightarrow> lkm \<Rightarrow> lkm option" where
  "flash_loop [] s = None"
| "flash_loop (i # ins) s =
     (let s1 = fold sysfs_store (writes i) s
      in if kthread_should_stop i then Some s1 else flash_loop ins (flash_tick s1))"

definition msg_started :: string where
  "msg_started = ''ERPi LED: Thread has started running '' @ [CHR 0x0A]"

definition msg_completed :: string where
  "msg_completed = ''ERPi LED: Thread has run to completion '' @ [CHR 0x0A]"

definition flash :: "tick_in list \<Rightarrow> lkm \<Rightarrow> (lkm \<times> int) option" where
  "flash ins s =
     (case flash_loop ins (printk msg_started s) of
        None \<Rightarrow> None
      | Some s' \<Rightarrow> Some (printk msg_completed s', 0))"

subsection \<open>Vocabulary of the properties\<close>

text \<open>
  The levels of the four lines, \<open>LED1\<close> first; the number of case labels of the switch
  of each mode; a counter that is one of these labels; lines that are all low; two
  environment entries without sysfs writes, one letting the thread run and one stopping
  it; the passes of the loop body that a list of environment entries drives when none of
  them stops the thread.
\<close>

definition pattern :: "lkm \<Rightarrow> bool list" where
  "pattern s = map (gpio s) [LED1, LED2, LED3, LED4]"

fun seq_len :: "modes \<Rightarrow> nat" where
  "seq_len DER = 4"
| "seq_len IZQ = 4"
| "seq_len CORRE = 6"

definition in_range :: "lkm \<Rightarrow> bool" where
  "in_range s = (unat (state s) < seq_len (mode s))"

definition all_low :: "nat \<Rightarrow> bool" where
  "all_low pin = False"

fun is_gpio_set :: "event \<Rightarrow> bool" where
  "is_gpio_set (Gpio_set pin v) = True"
| "is_gpio_set e = False"

definition go :: tick_in where
  "go = \<lparr>writes = [], kthread_should_stop = False\<rparr>"

definition halt :: tick_in where
  "halt = \<lparr>writes = [], kthread_should_stop = True\<rparr>"

text \<open>
  The text of a period request: the decimal numeral of an integer, with a minus sign
  when it is negative.
\<close>

definition digit_char :: "nat \<Rightarrow> char" where
  "digit_char d = char_of (48 + d)"

fun decimal :: "nat \<Rightarrow> string" where
  "decimal n = (if n < 10 then [digit_char n] else decimal (n div 10) @ [digit_char (n mod 10)])"

declare decimal.simps [simp del]

definition decimal_int :: "int \<Rightarrow> string" where
  "decimal_int v = (if v < 0 then CHR ''-'' # decimal (nat (- v)) else decimal (nat v))"

fun run_ticks :: "tick_in list \<Rightarrow> lkm \<Rightarrow> lkm" where
  "run_ticks [] s = s"
| "run_ticks (i # ins) s = run_ticks ins (flash_tick (fold sysfs_store (writes i) s))"

section \<open>Auxiliary facts\<close>

subsection \<open>String comparison\<close>

text \<open>
  On strings without an embedded NUL, \<open>strncmp\<close> returns 0 exactly when the two strings
  agree on their first \<open>n\<close> characters.
\<close>

lemma strncmp_eq_0_iff:
  "NUL \<notin> set cs \<Longrightarrow> NUL \<notin> set ct \<Longrightarrow> strncmp cs ct n = 0 \<longleftrightarrow> take n cs = take n ct"
  by (induction cs ct n rule: strncmp.induct) auto

lemma mode_store_mode:
  assumes "NUL \<notin> set buf"
  shows "mode (fst (mode_store buf count s)) =
     (if take (unat (count - 1)) buf = take (unat (count - 1)) ''izq'' then IZQ
      else if take (unat (count - 1)) buf = take (unat (count - 1)) ''corre'' then CORRE
      else if take (unat (count - 1)) buf = take (unat (count - 1)) ''der'' then DER
      else mode s)"
proof -
  have "NUL \<notin> set ''izq''" "NUL \<notin> set ''corre''" "NUL \<notin> set ''der''"
    by (simp_all add: NUL_def)
  with assms show ?thesis
    by (simp add: mode_store_def strncmp_eq_0_iff)
qed

lemma mode_store_tokens:
  "mode (fst (mode_store ''izq\<newline>'' 4 s)) = IZQ"
  "mode (fst (mode_store ''corre\<newline>'' 6 s)) = CORRE"
  "mode (fst (mode_store ''der\<newline>'' 4 s)) = DER"
  "mode (fst (mode_store ''bogus\<newline>'' 6 s)) = mode s"
  "mode (fst (mode_store ''DER\<newline>'' 4 s)) = mode s"
  by (simp_all add: mode_store_mode NUL_def)

subsection \<open>The step counter\<close>

lemma unsigned_char_less_4:
  "unat (w :: unsigned_char) < 4 \<longleftrightarrow> w = 0 \<or> w = 1 \<or> w = 2 \<or> w = 3"
  unfolding word_unat_eq_iff by simp arith

lemma unsigned_char_less_6:
  "unat (w :: unsigned_char) < 6 \<longleftrightarrow> w = 0 \<or> w = 1 \<or> w = 2 \<or> w = 3 \<or> w = 4 \<or> w = 5"
  unfolding word_unat_eq_iff by simp arith

lemma in_range_iff:
  "in_range s \<longleftrightarrow>
     (if mode s = CORRE
      then state s = 0 \<or> state s = 1 \<or> state s = 2 \<or> state s = 3 \<or> state s = 4 \<or> state s = 5
      else state s = 0 \<or> state s = 1 \<or> state s = 2 \<or> state s = 3)"
  by (cases "mode s") (simp_all add: in_range_def unsigned_char_less_4 unsigned_char_less_6)

subsection \<open>One pass of the loop body, field by field\<close>

lemmas step_defs = flash_tick_def flash_switch_def set_leds_def gpio_set_value_def msleep_def
  pattern_def LED1_def LED2_def LED3_def LED4_def

lemma mode_flash_tick: "mode (flash_tick s) = mode s"
  by (simp add: step_defs)

lemma blinkPeriod_flash_switch: "blinkPeriod (flash_switch s) = blinkPeriod s"
  by (simp add: flash_switch_def set_leds_def gpio_set_value_def)

lemma state_flash_tick:
  "state (flash_tick s) =
     (if mode s = CORRE then
        (if state s = 0 then 1 else if state s = 1 then 2 else if state s = 2 then 3
         else if state s = 3 then 4 else if state s = 4 then 5 else 0)
      else
        (if state s = 0 then 1 else if state s = 1 then 2 else if state s = 2 then 3
         else 0))"
  by (cases "mode s") (simp_all add: step_defs)

lemma pattern_flash_tick_DER:
  "mode s = DER \<Longrightarrow> pattern (flash_tick s) =
     (if state s = 0 then [True, False, False, False]
      else if state s = 1 then [False, True, False, False]
      else if state s = 2 then [False, False, True, False]
      else if state s = 3 then [False, False, False, True]
      else pattern s)"
  by (simp add: step_defs)

lemma pattern_flash_tick_IZQ:
  "mode s = IZQ \<Longrightarrow> pattern (flash_tick s) =
     (if state s = 0 then [False, False, False, True]
      else if state s = 1 then [False, False, True, False]
      else if state s = 2 then [False, True, False, False]
      else if state s = 3 then [True, False, False, False]
      else pattern s)"
  by (simp add: step_defs)

lemma pattern_flash_tick_CORRE:
  "mode s = CORRE \<Longrightarrow> pattern (flash_tick s) =
     (if state s = 0 then [False, False, False, True]
      else if state s = 1 then [False, False, True, False]
      else if state s = 2 then [False, True, False, False]
      else if state s = 3 then [True, False, False, False]
      else if state s = 4 then [False, True, False, False]
      else if state s = 5 then [False, False, True, False]
      else pattern s)"
  by (simp add: step_defs)

lemma pattern_flash_tick_trace:
  "pattern (flash_tick (s\<lparr>trace := t\<rparr>)) = pattern (flash_tick s)"
  by (simp add: step_defs)

lemma flash_tick_default:
  "\<not> in_range s \<Longrightarrow>
     flash_tick s = s\<lparr>state := 0, trace := trace s @ [Msleep (blinkPeriod s div 2)]\<rparr>"
  by (cases "mode s") (simp_all add: in_range_iff flash_tick_def flash_switch_def msleep_def)

lemma funpow_4: "(f ^^ 4) x = f (f (f (f x)))"
  by (simp add: numeral_eq_Suc)

lemma funpow_6: "(f ^^ 6) x = f (f (f (f (f (f x)))))"
  by (simp add: numeral_eq_Suc)

subsection \<open>The sysfs writes and the loop\<close>

lemma trace_sysfs_store: "trace (sysfs_store w s) = trace s"
  by (cases w) (simp_all add: mode_store_def period_store_def Let_def)

lemma gpio_sysfs_store: "gpio (sysfs_store w s) = gpio s"
  by (cases w) (simp_all add: mode_store_def period_store_def Let_def)

lemma state_sysfs_store: "state (sysfs_store w s) = state s"
  by (cases w) (simp_all add: mode_store_def period_store_def Let_def)

lemma trace_fold_sysfs_store: "trace (fold sysfs_store ws s) = trace s"
  by (induction ws arbitrary: s) (simp_all add: trace_sysfs_store)

lemma gpio_fold_sysfs_store: "gpio (fold sysfs_store ws s) = gpio s"
  by (induction ws arbitrary: s) (simp_all add: gpio_sysfs_store)

lemma state_mode_store: "state (fst (mode_store buf count s)) = state s"
  by (simp add: mode_store_def)

lemma pattern_mode_store: "pattern (fst (mode_store buf count s)) = pattern s"
  by (simp add: pattern_def mode_store_def)

lemma state_lkm_init: "state (lkm_init g) = 0"
  by (simp add: lkm_init_def)

text \<open>
  A counter outside the labels of the current mode is reachable: the mode is set to
  \<open>CORRE\<close>, five passes take the counter to 5 and leave \<open>LED2\<close> alone high, and a
  write of \<open>der\<close> then changes the mode without touching the counter.
\<close>

lemma stale_counter_reachable:
  "mode (fold sysfs_store [Mode_write ''der\<newline>'' 4]
      (run_ticks [\<lparr>writes = [Mode_write ''corre\<newline>'' 6], kthread_should_stop = False\<rparr>,
         go, go, go, go] (lkm_init g))) = DER"
  "state (fold sysfs_store [Mode_write ''der\<newline>'' 4]
      (run_ticks [\<lparr>writes = [Mode_write ''corre\<newline>'' 6], kthread_should_stop = False\<rparr>,
         go, go, go, go] (lkm_init g))) = 5"
  "pattern (fold sysfs_store [Mode_write ''der\<newline>'' 4]
      (run_ticks [\<lparr>writes = [Mode_write ''corre\<newline>'' 6], kthread_should_stop = False\<rparr>,
         go, go, go, go] (lkm_init g))) = [False, True, False, False]"
  by (simp_all add: go_def mode_store_tokens state_mode_store pattern_mode_store
      state_flash_tick mode_flash_tick pattern_flash_tick_CORRE state_lkm_init)

text \<open>
  The thread returns at the first entry that answers the stop, after one pass of the body
  for each entry before it; with no such entry it has not returned.
\<close>

lemma flash_loop_stop:
  "\<forall>j \<in> set pre. \<not> kthread_should_stop j \<Longrightarrow> kthread_should_stop i \<Longrightarrow>
     flash_loop (pre @ i # post) s = Some (fold sysfs_store (writes i) (run_ticks pre s))"
  by (induction pre arbitrary: s) (simp_all add: Let_def)

lemma flash_loop_running:
  "\<forall>j \<in> set ins. \<not> kthread_should_stop j \<Longrightarrow> flash_loop ins s = None"
  by (induction ins arbitrary: s) (simp_all add: Let_def)

subsection \<open>Scanning a period\<close>

lemma sscanf_d_examples:
  "sscanf_d ''0\<newline>'' = Some 0"
  "sscanf_d ''1\<newline>'' = Some 1"
  "sscanf_d ''2\<newline>'' = Some 2"
  "sscanf_d ''5000\<newline>'' = Some 5000"
  "sscanf_d ''10000\<newline>'' = Some 10000"
  "sscanf_d ''10001\<newline>'' = Some 10001"
  by (simp_all add: sscanf_d_def isspace_def isdigit_def)

lemma period_store_scanned:
  "sscanf_d buf = Some v \<Longrightarrow>
     fst (period_store x buf count s) =
       (if 1 < v \<and> v \<le> 10000 then s\<lparr>blinkPeriod := v\<rparr> else s)"
  by (simp add: period_store_def)

text \<open>
  The scan of a decimal numeral stores the number it denotes, reduced to 32 bits.
\<close>

lemma of_char_digit_char: "d < 10 \<Longrightarrow> of_char (digit_char d) = 48 + d"
  by (simp add: digit_char_def)

lemma isdigit_digit_char: "d < 10 \<Longrightarrow> isdigit (digit_char d)"
  by (simp add: isdigit_def of_char_digit_char)

lemma isdigit_not_isspace: "isdigit c \<Longrightarrow> \<not> isspace c"
  by (auto simp add: isdigit_def isspace_def)

lemma isdigit_not_minus: "isdigit c \<Longrightarrow> c \<noteq> CHR ''-''"
  by (auto simp add: isdigit_def)

lemma decimal_not_Nil: "decimal n \<noteq> []"
  by (subst decimal.simps) simp

lemma hd_decimal: "\<exists>d < 10. hd (decimal n) = digit_char d"
proof (induction n rule: decimal.induct)
  case (1 n)
  show ?case
  proof (cases "n < 10")
    case True
    then show ?thesis by (subst decimal.simps) auto
  next
    case False
    with 1 show ?thesis
      by (subst decimal.simps) (simp add: decimal_not_Nil)
  qed
qed

lemma simple_strtoull_decimal:
  "simple_strtoull acc (decimal n @ rest) =
     simple_strtoull (acc * 10 ^ length (decimal n) + of_nat n) rest"
proof (induction n arbitrary: acc rest rule: decimal.induct)
  case (1 n)
  show ?case
  proof (cases "n < 10")
    case True
    then show ?thesis
      by (subst (1 2) decimal.simps) (simp add: isdigit_digit_char of_char_digit_char)
  next
    case False
    have d: "n mod 10 < 10" by simp
    have split: "(of_nat n :: 64 word) = of_nat (n div 10) * 10 + of_nat (n mod 10)"
    proof -
      have "n = n div 10 * 10 + n mod 10" by simp
      then have "(of_nat n :: 64 word) = of_nat (n div 10 * 10 + n mod 10)" by simp
      then show ?thesis by (simp only: of_nat_add of_nat_mult of_nat_numeral)
    qed
    from False have unf: "decimal n = decimal (n div 10) @ [digit_char (n mod 10)]"
      by (subst decimal.simps) simp
    show ?thesis
      using 1 [OF False, of acc "digit_char (n mod 10) # rest"]
      by (simp add: unf isdigit_digit_char [OF d] of_char_digit_char [OF d] split
          algebra_simps)
  qed
qed

lemma simple_strtoull_decimal_newline:
  "simple_strtoull 0 (decimal n @ CHR 0x0A # rest) = of_nat n"
  by (simp add: simple_strtoull_decimal isdigit_def)

lemma sscanf_d_decimal:
  "sscanf_d (decimal n @ CHR 0x0A # rest) = Some (of_nat n)"
proof -
  obtain d where d: "d < 10" "hd (decimal n) = digit_char d"
    using hd_decimal by blast
  have hd: "hd (decimal n @ CHR 0x0A # rest) = digit_char d"
    by (simp add: d(2) decimal_not_Nil)
  have "decimal n @ CHR 0x0A # rest = digit_char d # tl (decimal n) @ CHR 0x0A # rest"
    using d(2) decimal_not_Nil [of n] by (cases "decimal n") simp_all
  then have skip: "skip_spaces (decimal n @ CHR 0x0A # rest) = decimal n @ CHR 0x0A # rest"
    by (metis isdigit_not_isspace isdigit_digit_char [OF d(1)] skip_spaces.simps(2))
  have "(ucast (word_of_int (int n) :: 64 word) :: 32 word) = word_of_int (int n)"
    by (rule ucast_down_wi) (simp add: is_down)
  then have cast: "(ucast (of_nat n :: 64 word) :: 32 word) = of_nat n"
    by simp
  show ?thesis
    by (simp add: sscanf_d_def skip Let_def hd decimal_not_Nil cast
        isdigit_not_minus isdigit_digit_char [OF d(1)] simple_strtoull_decimal_newline)
qed

lemma sscanf_d_minus_decimal:
  "sscanf_d (CHR ''-'' # decimal n @ CHR 0x0A # rest) = Some (- of_nat n)"
proof -
  obtain d where d: "d < 10" "hd (decimal n) = digit_char d"
    using hd_decimal by blast
  have hd: "hd (decimal n @ CHR 0x0A # rest) = digit_char d"
    by (simp add: d(2) decimal_not_Nil)
  have skip: "skip_spaces (CHR ''-'' # decimal n @ CHR 0x0A # rest)
      = CHR ''-'' # decimal n @ CHR 0x0A # rest"
    by (simp add: isspace_def)
  have "(ucast (word_of_int (- int n) :: 64 word) :: 32 word) = word_of_int (- int n)"
    by (rule ucast_down_wi) (simp add: is_down)
  then have cast: "(ucast (- of_nat n :: 64 word) :: 32 word) = - of_nat n"
    by simp
  show ?thesis
    unfolding sscanf_d_def skip
    by (simp add: Let_def hd decimal_not_Nil cast
        isdigit_digit_char [OF d(1)] simple_strtoull_decimal_newline)
qed

lemma sscanf_d_decimal_int:
  "sscanf_d (decimal_int v @ CHR 0x0A # rest) = Some (of_int v)"
  by (cases "v < 0") (simp_all add: decimal_int_def sscanf_d_decimal sscanf_d_minus_decimal)

lemma decimal_int_examples:
  "decimal_int 0 = ''0''" "decimal_int 1 = ''1''" "decimal_int 2 = ''2''"
  "decimal_int 5000 = ''5000''"
  "decimal_int 10000 = ''10000''" "decimal_int 10001 = ''10001''"
  "decimal_int 4294967298 = ''4294967298''"
  "decimal_int (- 4294967294) = ''-4294967294''"
  by (simp_all add: decimal_int_def decimal.simps digit_char_def char_of_def bit_0)

text \<open>
  For an integer that an \<open>int\<close> or an \<open>unsigned int\<close> can hold, the range test on the
  stored word is the range test on the integer.
\<close>

lemma uint_of_int_32:
  assumes "- (2 ^ 31) \<le> v" and "v < 2 ^ 32"
  shows "uint (of_int v :: 32 word) = (if v < 0 then v + 2 ^ 32 else v)"
proof (cases "v < 0")
  case True
  have "(v + 2 ^ 32) mod 2 ^ 32 = v + 2 ^ 32"
    by (rule mod_pos_pos_trivial) (use assms True in simp_all)
  moreover have "(v + 2 ^ 32) mod 2 ^ 32 = v mod 2 ^ 32"
    by simp
  ultimately show ?thesis
    using True by (simp add: uint_word_of_int)
next
  case False
  then have "v mod 2 ^ 32 = v"
    using assms by simp
  with False show ?thesis
    by (simp add: uint_word_of_int)
qed

lemma period_guard_of_int:
  assumes "- (2 ^ 31) \<le> v" and "v < 2 ^ 32"
  shows "(1 < (of_int v :: 32 word) \<and> (of_int v :: 32 word) \<le> 10000) \<longleftrightarrow> (1 < v \<and> v \<le> 10000)"
  using assms by (simp add: word_less_def word_le_def uint_of_int_32)

text \<open>
  A request without a digit stores nothing, and \<open>period_store\<close> then tests and may assign
  the indeterminate value of its local.
\<close>

lemma period_store_no_digits:
  "sscanf_d ''abc\<newline>'' = None"
  "fst (period_store 7 ''abc\<newline>'' 4 s) = s\<lparr>blinkPeriod := 7\<rparr>"
  by (simp_all add: period_store_def sscanf_d_def isspace_def isdigit_def)

section \<open>Properties\<close>

subsection \<open>The mode attribute\<close>

text \<open>
  C1. A write to the mode attribute changes the mode only when the request is one of the
  three tokens, compared as whole literals; every other request, a prefix of a token and
  the empty request among them, leaves the mode as it was. The comparison length
  \<open>count - 1\<close> of \<open>mode_store\<close> breaks this: an empty line (\<open>count = 1\<close>) compares
  zero characters, so the first test succeeds and the mode becomes \<open>IZQ\<close>; the single
  letter \<open>c\<close> followed by a newline compares one character and selects \<open>CORRE\<close>.
\<close>

theorem mode_store_accepts_empty_and_prefix:
  "mode (lkm_init all_low) = DER
   \<and> mode (fst (mode_store ''\<newline>'' 1 (lkm_init all_low))) = IZQ
   \<and> mode (fst (mode_store ''c\<newline>'' 2 (lkm_init all_low))) = CORRE"
  by (simp add: mode_store_def lkm_init_def)

text \<open>
  C10. Every call of \<open>mode_store\<close> returns the request length \<open>count\<close> it was given,
  whatever the buffer holds and whether or not the mode was changed. Read as the signed
  \<open>ssize_t\<close> of the same width, the returned value is that length and not a negative
  error code, for every length below \<open>2 ^ 31\<close>.
\<close>

theorem mode_store_returns_count:
  "snd (mode_store buf count s) = count
   \<and> (uint count < 2 ^ 31 \<longrightarrow> sint (snd (mode_store buf count s)) = uint count)"
proof -
  have ret: "snd (mode_store buf count s) = count"
    by (simp add: mode_store_def)
  have "sint count = uint count" if small: "uint count < 2 ^ 31"
  proof -
    have "- (2 ^ 31) \<le> uint count"
      by (rule order_trans [of _ 0]) simp_all
    then have "signed_take_bit 31 (uint count) = uint count"
      using small by (rule signed_take_bit_int_eq_self)
    then show ?thesis
      by (simp add: sint_uint)
  qed
  with ret show ?thesis
    by simp
qed

theorem mode_store_returns_count_witness:
  "uint (6 :: size_t) < 2 ^ 31
   \<and> snd (mode_store ''bogus\<newline>'' 6 (lkm_init all_low)) = 6
   \<and> sint (snd (mode_store ''bogus\<newline>'' 6 (lkm_init all_low))) = 6
   \<and> mode (fst (mode_store ''bogus\<newline>'' 6 (lkm_init all_low))) = DER"
  using mode_store_returns_count [of "''bogus\<newline>''" 6 "lkm_init all_low"]
  by (simp add: mode_store_tokens) (simp add: lkm_init_def)

subsection \<open>The period attribute\<close>

text \<open>
  C4, as the source has it. A period write whose request is the decimal numeral of an
  integer \<open>v\<close> that an \<open>int\<close> or an \<open>unsigned int\<close> can hold
  (\<open>- 2 ^ 31 \<le> v < 2 ^ 32\<close>), followed by a newline, is accepted exactly when
  \<open>1 < v \<le> 10000\<close>: the period becomes \<open>v\<close> inside this range and every variable
  keeps its value outside it. The requests 0, 1 and 10001 leave the state unchanged, the
  requests 2 and 10000 set the period.
\<close>

theorem period_store_range:
  assumes "- (2 ^ 31) \<le> v" and "v < 2 ^ 32"
  shows "fst (period_store x (decimal_int v @ ''\<newline>'') count s) =
           (if 1 < v \<and> v \<le> 10000 then s\<lparr>blinkPeriod := of_int v\<rparr> else s)
         \<and> fst (period_store x ''0\<newline>'' 2 s) = s
         \<and> fst (period_store x ''1\<newline>'' 2 s) = s
         \<and> fst (period_store x ''10001\<newline>'' 6 s) = s
         \<and> fst (period_store x ''2\<newline>'' 2 s) = s\<lparr>blinkPeriod := 2\<rparr>
         \<and> fst (period_store x ''10000\<newline>'' 6 s) = s\<lparr>blinkPeriod := 10000\<rparr>"
proof -
  have "sscanf_d (decimal_int v @ ''\<newline>'') = Some (of_int v)"
    by (rule sscanf_d_decimal_int)
  then have "fst (period_store x (decimal_int v @ ''\<newline>'') count s) =
      (if 1 < v \<and> v \<le> 10000 then s\<lparr>blinkPeriod := of_int v\<rparr> else s)"
    using period_guard_of_int [OF assms] by (simp add: period_store_def Let_def)
  then show ?thesis
    by (simp add: period_store_scanned sscanf_d_examples)
qed

theorem period_store_range_witness:
  "- (2 ^ 31) \<le> (5000 :: int) \<and> (5000 :: int) < 2 ^ 32
   \<and> decimal_int 5000 @ ''\<newline>'' = ''5000\<newline>''
   \<and> blinkPeriod (fst (period_store 0 ''5000\<newline>'' 5 (lkm_init all_low))) = 5000"
  using period_store_range [of 5000 0 5 "lkm_init all_low"]
  by (simp add: decimal_int_examples)

text \<open>
  C4, as stated, makes the range test one on the value the request asks for. The scan
  keeps the low 32 bits of the number, so the requests 4294967298 and -4294967294,
  both outside the range, are stored as 2 and change the period from 1000 to 2.
\<close>

theorem period_store_range_counterexample:
  "blinkPeriod (lkm_init all_low) = 1000
   \<and> decimal_int 4294967298 @ ''\<newline>'' = ''4294967298\<newline>''
   \<and> blinkPeriod (fst (period_store 0 ''4294967298\<newline>'' 11 (lkm_init all_low))) = 2
   \<and> decimal_int (- 4294967294) @ ''\<newline>'' = ''-4294967294\<newline>''
   \<and> blinkPeriod (fst (period_store 0 ''-4294967294\<newline>'' 12 (lkm_init all_low))) = 2"
  by (simp add: decimal_int_examples)
    (simp add: period_store_def sscanf_d_def isspace_def isdigit_def lkm_init_def)

subsection \<open>One step of the sequence\<close>

text \<open>
  C3. When the counter is a case label of the switch of the current mode (0 to 3 for
  \<open>DER\<close> and \<open>IZQ\<close>, 0 to 5 for \<open>CORRE\<close>), one pass of the loop body leaves exactly
  one of the four lines high and the other three low, and the next counter is again a
  case label of that mode.
\<close>

theorem flash_tick_one_hot:
  assumes "in_range s"
  shows "pattern (flash_tick s) \<in>
           {[True, False, False, False], [False, True, False, False],
            [False, False, True, False], [False, False, False, True]}
         \<and> in_range (flash_tick s)"
proof (cases "mode s")
  case DER
  with assms have "state s = 0 \<or> state s = 1 \<or> state s = 2 \<or> state s = 3"
    by (simp add: in_range_iff)
  with DER show ?thesis
    by (elim disjE)
      (simp_all add: pattern_flash_tick_DER state_flash_tick in_range_iff mode_flash_tick)
next
  case IZQ
  with assms have "state s = 0 \<or> state s = 1 \<or> state s = 2 \<or> state s = 3"
    by (simp add: in_range_iff)
  with IZQ show ?thesis
    by (elim disjE)
      (simp_all add: pattern_flash_tick_IZQ state_flash_tick in_range_iff mode_flash_tick)
next
  case CORRE
  with assms have "state s = 0 \<or> state s = 1 \<or> state s = 2 \<or> state s = 3
      \<or> state s = 4 \<or> state s = 5"
    by (simp add: in_range_iff)
  with CORRE show ?thesis
    by (elim disjE)
      (simp_all add: pattern_flash_tick_CORRE state_flash_tick in_range_iff mode_flash_tick)
qed

theorem flash_tick_one_hot_witness:
  "in_range ((lkm_init all_low)\<lparr>mode := CORRE, state := 4\<rparr>)
   \<and> pattern (flash_tick ((lkm_init all_low)\<lparr>mode := CORRE, state := 4\<rparr>))
       = [False, True, False, False]
   \<and> in_range (flash_tick ((lkm_init all_low)\<lparr>mode := CORRE, state := 4\<rparr>))"
  using flash_tick_one_hot [of "(lkm_init all_low)\<lparr>mode := CORRE, state := 4\<rparr>"]
  by (simp add: in_range_iff lkm_init_def pattern_flash_tick_CORRE)

text \<open>
  C9. For every value of the counter and every mode the pass is defined, and no array is
  indexed anywhere in it. When the counter is not a case label of the current mode, the
  pass writes no line at all: the state after it is the state before it with the counter
  set to 0 and the sleep appended to the trace, so the next pass starts at step 0.
\<close>

theorem flash_tick_out_of_range:
  assumes "\<not> in_range s"
  shows "flash_tick s = s\<lparr>state := 0, trace := trace s @ [Msleep (blinkPeriod s div 2)]\<rparr>
         \<and> gpio (flash_tick s) = gpio s
         \<and> filter is_gpio_set (trace (flash_tick s)) = filter is_gpio_set (trace s)
         \<and> state (flash_tick s) = 0
         \<and> in_range (flash_tick s)"
  using assms by (simp add: flash_tick_default in_range_iff)

theorem flash_tick_out_of_range_witness:
  "\<not> in_range ((lkm_init all_low)\<lparr>state := 200\<rparr>)
   \<and> state (flash_tick ((lkm_init all_low)\<lparr>state := 200\<rparr>)) = 0
   \<and> trace (flash_tick ((lkm_init all_low)\<lparr>state := 200\<rparr>)) = [Msleep 500]"
  using flash_tick_out_of_range [of "(lkm_init all_low)\<lparr>state := 200\<rparr>"]
  by (simp add: lkm_init_def in_range_def)

text \<open>
  C2, as the source has it. When the counter is not a case label of the current mode, one
  pass of the loop body fails in no way: it writes no line, so the lines keep their
  levels, and it sets the counter to 0. The pass after it makes the four line writes of
  step 0 of that mode, which leave \<open>LED1\<close> alone high in mode \<open>DER\<close> and \<open>LED4\<close>
  alone high in the modes \<open>IZQ\<close> and \<open>CORRE\<close>, and sets the counter to 1.
\<close>

theorem flash_tick_recovers_in_two:
  assumes "\<not> in_range s"
  shows "trace (flash_tick s) = trace s @ [Msleep (blinkPeriod s div 2)]
         \<and> gpio (flash_tick s) = gpio s
         \<and> pattern (flash_tick s) = pattern s
         \<and> state (flash_tick s) = 0
         \<and> trace (flash_tick (flash_tick s)) =
             trace s @ [Msleep (blinkPeriod s div 2),
               Gpio_set LED1 (mode s = DER), Gpio_set LED2 False, Gpio_set LED3 False,
               Gpio_set LED4 (mode s \<noteq> DER), Msleep (blinkPeriod s div 2)]
         \<and> pattern (flash_tick (flash_tick s)) =
             (if mode s = DER then [True, False, False, False]
              else [False, False, False, True])
         \<and> pattern (flash_tick (flash_tick s)) = pattern (flash_tick (s\<lparr>state := 0\<rparr>))
         \<and> state (flash_tick (flash_tick s)) = 1"
proof -
  have eq: "flash_tick s =
      (s\<lparr>state := 0\<rparr>)\<lparr>trace := trace s @ [Msleep (blinkPeriod s div 2)]\<rparr>"
    using assms by (simp add: flash_tick_default)
  have first: "trace (flash_tick s) = trace s @ [Msleep (blinkPeriod s div 2)]"
    "gpio (flash_tick s) = gpio s" "pattern (flash_tick s) = pattern s"
    "state (flash_tick s) = 0"
    by (simp_all add: eq pattern_def)
  have second_trace: "trace (flash_tick (flash_tick s)) =
      trace s @ [Msleep (blinkPeriod s div 2),
        Gpio_set LED1 (mode s = DER), Gpio_set LED2 False, Gpio_set LED3 False,
        Gpio_set LED4 (mode s \<noteq> DER), Msleep (blinkPeriod s div 2)]"
    unfolding eq
    by (cases "mode s")
      (simp_all add: flash_tick_def flash_switch_def set_leds_def gpio_set_value_def
        msleep_def)
  have second_pattern: "pattern (flash_tick (flash_tick s)) =
      (if mode s = DER then [True, False, False, False] else [False, False, False, True])"
    unfolding eq pattern_flash_tick_trace
    by (cases "mode s")
      (simp_all add: pattern_flash_tick_DER pattern_flash_tick_IZQ pattern_flash_tick_CORRE)
  have zero_pattern: "pattern (flash_tick (s\<lparr>state := 0\<rparr>)) =
      (if mode s = DER then [True, False, False, False] else [False, False, False, True])"
    by (cases "mode s")
      (simp_all add: pattern_flash_tick_DER pattern_flash_tick_IZQ pattern_flash_tick_CORRE)
  have second_state: "state (flash_tick (flash_tick s)) = 1"
    by (simp add: eq state_flash_tick)
  show ?thesis
    by (simp only: first second_trace second_pattern zero_pattern second_state simp_thms)
qed

theorem flash_tick_recovers_in_two_witness:
  "\<not> in_range ((lkm_init (all_low(LED2 := True)))\<lparr>mode := IZQ, state := 5\<rparr>)
   \<and> pattern (flash_tick ((lkm_init (all_low(LED2 := True)))\<lparr>mode := IZQ, state := 5\<rparr>))
       = [False, True, False, False]
   \<and> state (flash_tick ((lkm_init (all_low(LED2 := True)))\<lparr>mode := IZQ, state := 5\<rparr>)) = 0
   \<and> trace (flash_tick (flash_tick
         ((lkm_init (all_low(LED2 := True)))\<lparr>mode := IZQ, state := 5\<rparr>))) =
       [Msleep 500, Gpio_set LED1 False, Gpio_set LED2 False, Gpio_set LED3 False,
        Gpio_set LED4 True, Msleep 500]
   \<and> pattern (flash_tick (flash_tick
         ((lkm_init (all_low(LED2 := True)))\<lparr>mode := IZQ, state := 5\<rparr>)))
       = [False, False, False, True]
   \<and> state (flash_tick (flash_tick
         ((lkm_init (all_low(LED2 := True)))\<lparr>mode := IZQ, state := 5\<rparr>))) = 1"
  using flash_tick_recovers_in_two
    [of "(lkm_init (all_low(LED2 := True)))\<lparr>mode := IZQ, state := 5\<rparr>"]
  by (simp add: lkm_init_def in_range_def)
    (simp add: pattern_def all_low_def LED1_def LED2_def LED3_def LED4_def)

text \<open>
  C2, as stated, asks the pass itself to write the pattern of step 0 and to return 1. In
  mode \<open>DER\<close> with the counter at 5 and \<open>LED2\<close> alone high (the state that five
  passes in mode \<open>CORRE\<close> and a write of \<open>der\<close> lead to), the pass sets the counter
  to 0 and the lines stay as they were, while the pattern of step 0 has \<open>LED1\<close> alone
  high.
\<close>

theorem flash_tick_out_of_range_counterexample:
  "\<not> in_range ((lkm_init (all_low(LED2 := True)))\<lparr>state := 5\<rparr>)
   \<and> state (flash_tick ((lkm_init (all_low(LED2 := True)))\<lparr>state := 5\<rparr>)) = 0
   \<and> state (flash_tick ((lkm_init (all_low(LED2 := True)))\<lparr>state := 5\<rparr>)) \<noteq> 1
   \<and> pattern (flash_tick ((lkm_init (all_low(LED2 := True)))\<lparr>state := 5\<rparr>))
       = [False, True, False, False]
   \<and> pattern (flash_tick ((lkm_init (all_low(LED2 := True)))\<lparr>state := 0\<rparr>))
       = [True, False, False, False]"
  by (simp add: lkm_init_def in_range_def state_flash_tick pattern_flash_tick_DER)
    (simp add: pattern_def all_low_def LED1_def LED2_def LED3_def LED4_def)

subsection \<open>Cycles\<close>

text \<open>
  C5. For a fixed mode and a counter that is one of its case labels, as many passes as
  the mode has labels (4 for \<open>DER\<close> and \<open>IZQ\<close>, 6 for \<open>CORRE\<close>) bring the counter back
  to its value, and bring the pattern and counter that a pass has produced back to
  themselves. The pass at the last label sets the counter to 0.
\<close>

theorem flash_tick_cycle:
  assumes "in_range s"
  shows "state ((flash_tick ^^ seq_len (mode s)) s) = state s
         \<and> state ((flash_tick ^^ seq_len (mode s)) (flash_tick s)) = state (flash_tick s)
         \<and> pattern ((flash_tick ^^ seq_len (mode s)) (flash_tick s)) = pattern (flash_tick s)
         \<and> (Suc (unat (state s)) = seq_len (mode s) \<longrightarrow> state (flash_tick s) = 0)"
proof (cases "mode s")
  case DER
  with assms have "state s = 0 \<or> state s = 1 \<or> state s = 2 \<or> state s = 3"
    by (simp add: in_range_iff)
  with DER show ?thesis
    by (elim disjE)
      (simp_all add: funpow_4 pattern_flash_tick_DER state_flash_tick mode_flash_tick)
next
  case IZQ
  with assms have "state s = 0 \<or> state s = 1 \<or> state s = 2 \<or> state s = 3"
    by (simp add: in_range_iff)
  with IZQ show ?thesis
    by (elim disjE)
      (simp_all add: funpow_4 pattern_flash_tick_IZQ state_flash_tick mode_flash_tick)
next
  case CORRE
  with assms have "state s = 0 \<or> state s = 1 \<or> state s = 2 \<or> state s = 3
      \<or> state s = 4 \<or> state s = 5"
    by (simp add: in_range_iff)
  with CORRE show ?thesis
    by (elim disjE)
      (simp_all add: funpow_6 pattern_flash_tick_CORRE state_flash_tick mode_flash_tick)
qed

theorem flash_tick_cycle_witness:
  "in_range ((lkm_init all_low)\<lparr>state := 3\<rparr>)
   \<and> Suc (unat (state ((lkm_init all_low)\<lparr>state := 3\<rparr>)))
       = seq_len (mode ((lkm_init all_low)\<lparr>state := 3\<rparr>))
   \<and> state (flash_tick ((lkm_init all_low)\<lparr>state := 3\<rparr>)) = 0
   \<and> state ((flash_tick ^^ 4) ((lkm_init all_low)\<lparr>state := 3\<rparr>)) = 3"
  using flash_tick_cycle [of "(lkm_init all_low)\<lparr>state := 3\<rparr>"]
  by (simp add: lkm_init_def in_range_def)

text \<open>
  C6. In mode \<open>DER\<close> with the counter at 0, successive passes drive the lines to
  \<open>LED1\<close> alone, \<open>LED2\<close> alone, \<open>LED3\<close> alone, \<open>LED4\<close> alone, and then \<open>LED1\<close> alone
  again.
\<close>

theorem flash_DER_order:
  assumes "mode s = DER" and "state s = 0"
  shows "pattern (flash_tick s) = [True, False, False, False]
         \<and> pattern (flash_tick (flash_tick s)) = [False, True, False, False]
         \<and> pattern (flash_tick (flash_tick (flash_tick s))) = [False, False, True, False]
         \<and> pattern (flash_tick (flash_tick (flash_tick (flash_tick s))))
             = [False, False, False, True]
         \<and> pattern (flash_tick (flash_tick (flash_tick (flash_tick (flash_tick s)))))
             = [True, False, False, False]"
  using assms by (simp add: pattern_flash_tick_DER state_flash_tick mode_flash_tick)

theorem flash_DER_order_witness:
  "mode (lkm_init all_low) = DER \<and> state (lkm_init all_low) = 0
   \<and> pattern (flash_tick (flash_tick (lkm_init all_low))) = [False, True, False, False]"
  using flash_DER_order [of "lkm_init all_low"] by (simp add: lkm_init_def)

subsection \<open>The loop\<close>

text \<open>
  C7. Every pass of the loop body ends, after the line writes of its switch, with a sleep
  of \<open>blinkPeriod / 2\<close> milliseconds, the quotient being the integer division of the
  unsigned period; with the period 2 the sleep is 1 millisecond.
\<close>

theorem flash_tick_sleep:
  "trace (flash_tick s) = trace (flash_switch s) @ [Msleep (blinkPeriod s div 2)]
   \<and> uint (blinkPeriod s div 2) = uint (blinkPeriod s) div 2
   \<and> (blinkPeriod s = 2 \<longrightarrow> last (trace (flash_tick s)) = Msleep 1)"
  by (simp add: flash_tick_def msleep_def uint_div Let_def blinkPeriod_flash_switch)

theorem flash_tick_sleep_witness:
  "blinkPeriod ((lkm_init all_low)\<lparr>blinkPeriod := 2\<rparr>) = 2
   \<and> last (trace (flash_tick ((lkm_init all_low)\<lparr>blinkPeriod := 2\<rparr>))) = Msleep 1"
  using flash_tick_sleep [of "(lkm_init all_low)\<lparr>blinkPeriod := 2\<rparr>"] by simp

text \<open>
  C8. The stop request is tested before every pass of the loop body, and the thread
  writes no line once it has seen it: when the entries \<open>pre\<close> do not stop the thread and
  the entry after them does, the thread returns 0 whatever entries follow, its trace is
  the trace of the passes for \<open>pre\<close> followed by the closing message alone, and the
  lines are as the last of these passes left them.
\<close>

theorem flash_stops_without_writes:
  assumes "\<forall>j \<in> set pre. \<not> kthread_should_stop j" and "kthread_should_stop i"
  shows "\<exists>s'. flash (pre @ i # post) s = Some (s', 0)
           \<and> trace s' = trace (run_ticks pre (printk msg_started s)) @ [Printk msg_completed]
           \<and> gpio s' = gpio (run_ticks pre (printk msg_started s))"
  using assms
  by (simp add: flash_def flash_loop_stop printk_def trace_fold_sysfs_store
      gpio_fold_sysfs_store)

theorem flash_stops_without_writes_witness:
  "\<not> kthread_should_stop go \<and> kthread_should_stop halt
   \<and> (\<exists>s'. flash ([go] @ halt # [go, go]) (lkm_init all_low) = Some (s', 0)
        \<and> trace s' = [Printk msg_started, Gpio_set LED1 True, Gpio_set LED2 False,
             Gpio_set LED3 False, Gpio_set LED4 False, Msleep 500, Printk msg_completed])"
  using flash_stops_without_writes [of "[go]" halt "[go, go]" "lkm_init all_low"]
  by (auto simp add: go_def halt_def lkm_init_def printk_def step_defs)

end
